theory Spec2Isabelle
  imports Complex_Main
begin

section \<open>Text model\<close>

text \<open>
  A Python \<open>str\<close> is a sequence of Unicode code points; a code point is a natural number.
  \<open>str\<close> turns an ASCII literal into such a sequence.
\<close>

type_synonym pystr = "nat list"

definition str :: "string \<Rightarrow> pystr" where
  "str s = map of_char s"

text \<open>A Python \<open>dict\<close> keeps insertion order: an association list with distinct keys.\<close>

type_synonym 'v pydict = "(pystr \<times> 'v) list"

fun dict_get :: "'v pydict \<Rightarrow> pystr \<Rightarrow> 'v \<Rightarrow> 'v" where
  "dict_get [] k d = d"
| "dict_get ((k', v') # kvs) k d = (if k' = k then v' else dict_get kvs k d)"

fun dict_set :: "'v pydict \<Rightarrow> pystr \<Rightarrow> 'v \<Rightarrow> 'v pydict" where
  "dict_set [] k v = [(k, v)]"
| "dict_set ((k', v') # kvs) k v =
     (if k' = k then (k', v) # kvs else (k', v') # dict_set kvs k v)"

section \<open>Runtime functions used by the tokenizer\<close>

text \<open>
  \<open>str.isspace\<close> and the class \<open>\s\<close> of \<open>re\<close> on a \<open>str\<close> pattern accept the same code
  points: U+0009..U+000D, U+001C..U+0020, U+0085, U+00A0, U+1680, U+2000..U+200A, U+2028,
  U+2029, U+202F, U+205F and U+3000.
\<close>

definition is_space :: "nat \<Rightarrow> bool" where
  "is_space c \<longleftrightarrow>
     (9 \<le> c \<and> c \<le> 13) \<or> (28 \<le> c \<and> c \<le> 32) \<or> c = 133 \<or> c = 160 \<or> c = 5760 \<or>
     (8192 \<le> c \<and> c \<le> 8202) \<or> c = 8232 \<or> c = 8233 \<or> c = 8239 \<or> c = 8287 \<or> c = 12288"

text \<open>
  \<open>str.lower\<close>. On an ASCII code point it maps \<open>A..Z\<close> to \<open>a..z\<close> and leaves the rest.
  On any other code point the result comes from the Unicode case tables of the runtime,
  which are not part of the program: they are the parameter \<open>ul\<close>, which receives the
  code points before, the code point itself and the code points after (the lower case of
  one code point may be several code points, and may depend on its context).
\<close>

type_synonym unicode_lower = "pystr \<Rightarrow> nat \<Rightarrow> pystr \<Rightarrow> pystr"

definition lower_cp :: "unicode_lower \<Rightarrow> pystr \<Rightarrow> nat \<Rightarrow> pystr \<Rightarrow> pystr" where
  "lower_cp ul before c after =
     (if c < 128 then (if 65 \<le> c \<and> c \<le> 90 then [c + 32] else [c])
      else ul before c after)"

fun lower_from :: "unicode_lower \<Rightarrow> pystr \<Rightarrow> pystr \<Rightarrow> pystr" where
  "lower_from ul before [] = []"
| "lower_from ul before (c # cs) = lower_cp ul before c cs @ lower_from ul (before @ [c]) cs"

definition lower :: "unicode_lower \<Rightarrow> pystr \<Rightarrow> pystr" where
  "lower ul text = lower_from ul [] text"

text \<open>\<open>re.sub(r"[^a-z0-9\s\-+#]", " ", text)\<close>: every code point outside the class becomes a space.\<close>

definition in_class :: "nat \<Rightarrow> bool" where
  "in_class c \<longleftrightarrow>
     (97 \<le> c \<and> c \<le> 122) \<or> (48 \<le> c \<and> c \<le> 57) \<or> is_space c \<or> c = 45 \<or> c = 43 \<or> c = 35"

definition re_sub :: "pystr \<Rightarrow> pystr" where
  "re_sub text = map (\<lambda>c. if in_class c then c else 32) text"

text \<open>\<open>str.split()\<close> with no argument: the maximal runs of code points that are not spaces.\<close>

fun split_from :: "pystr \<Rightarrow> pystr \<Rightarrow> pystr list" where
  "split_from cur [] = (if cur = [] then [] else [cur])"
| "split_from cur (c # cs) =
     (if is_space c then (if cur = [] then split_from [] cs else cur # split_from [] cs)
      else split_from (cur @ [c]) cs)"

definition split :: "pystr \<Rightarrow> pystr list" where
  "split text = split_from [] text"

text \<open>
  \<open>collections.Counter(tokens)\<close>: for each element in turn, \<open>m[elem] = m.get(elem, 0) + 1\<close>;
  the keys stand in the order of their first occurrence.
\<close>

definition count_elements :: "int pydict \<Rightarrow> pystr list \<Rightarrow> int pydict" where
  "count_elements m ts = foldl (\<lambda>m t. dict_set m t (dict_get m t 0 + 1)) m ts"

definition Counter :: "pystr list \<Rightarrow> int pydict" where
  "Counter ts = count_elements [] ts"

text \<open>
  \<open>Counter.most_common(n)\<close> for an integer \<open>n\<close> is \<open>heapq.nlargest(n, items, key=count)\<close>,
  which is \<open>sorted(items, key=count, reverse=True)[:n]\<close>: a stable sort by descending count,
  cut after \<open>n\<close> entries, and empty when \<open>n\<close> is zero or negative.
\<close>

definition most_common :: "int \<Rightarrow> int pydict \<Rightarrow> int pydict" where
  "most_common n cnt = take (nat n) (sort_key (\<lambda>kv. - snd kv) cnt)"

section \<open>The scorer\<close>

text \<open>
  \<open>STOPWORDS\<close> is a module-level set fixed at start-up (the English list of NLTK, or the
  empty set when that list is not installed): the parameter \<open>sw\<close>.
\<close>

definition tokens_of :: "unicode_lower \<Rightarrow> pystr set \<Rightarrow> pystr \<Rightarrow> pystr list" where
  "tokens_of ul sw text =
     filter (\<lambda>t. t \<noteq> [] \<and> t \<notin> sw \<and> length t > 1) (split (re_sub (lower ul text)))"

definition tokenize_and_weight ::
  "unicode_lower \<Rightarrow> pystr set \<Rightarrow> pystr \<Rightarrow> int option \<Rightarrow> int pydict" where
  "tokenize_and_weight ul sw text top_n =
     (let cnt = Counter (tokens_of ul sw text) in
      case top_n of
        None \<Rightarrow> cnt
      | Some n \<Rightarrow> if n \<noteq> 0 then most_common n cnt else cnt)"

text \<open>The loop over \<open>j_tokens.items()\<close>, carrying \<open>overlap\<close> and \<open>matched\<close>.\<close>

fun score_loop :: "int pydict \<Rightarrow> int pydict \<Rightarrow> int \<times> int pydict \<Rightarrow> int \<times> int pydict" where
  "score_loop r_tokens [] st = st"
| "score_loop r_tokens ((tok, jcount) # rest) (overlap, matched) =
     (let rcount = dict_get r_tokens tok 0 in
      if rcount > 0 then
        (let contribution = min rcount jcount in
         score_loop r_tokens rest (overlap + contribution, dict_set matched tok contribution))
      else score_loop r_tokens rest (overlap, matched))"

text \<open>
  The score is the quotient of two integers; it is kept as the exact rational, of which
  the \<open>float\<close> of the program is the nearest double.
\<close>

definition score_resume_against_job ::
  "unicode_lower \<Rightarrow> pystr set \<Rightarrow> pystr \<Rightarrow> pystr \<Rightarrow> rat \<times> int pydict" where
  "score_resume_against_job ul sw resume_text job_desc =
     (let r_tokens = tokenize_and_weight ul sw resume_text None;
          j_tokens = tokenize_and_weight ul sw job_desc None in
      if j_tokens = [] then (0, [])
      else
        (let (overlap, matched) = score_loop r_tokens j_tokens (0, []);
             s = sum_list (map snd j_tokens);
             total_job = (if s = 0 then 1 else s)
         in (of_int overlap / of_int total_job, matched)))"

section \<open>The extractor\<close>

text \<open>
  The file at \<open>path\<close> is its sequence of bytes. What leaves a function other than a value
  is an exception: the \<open>IndexError\<close> of a list index, or an exception raised inside one of
  the two parsing libraries, kept by the name of its class.
\<close>

type_synonym bytes = "nat list"

datatype exn = IndexError | Raised string

text \<open>
  The parsing libraries are not part of the program. \<open>pdf_text\<close> is
  \<open>pdfminer.high_level.extract_text\<close> on a file: it raises, or returns a text or \<open>None\<close>.
  \<open>docx_paragraphs\<close> is \<open>docx.Document\<close> on a file followed by the \<open>text\<close> of each of its
  \<open>paragraphs\<close>: it raises, or gives the texts in document order.
\<close>

record libraries =
  pdf_text :: "bytes \<Rightarrow> exn + pystr option"
  docx_paragraphs :: "bytes \<Rightarrow> exn + pystr list"

text \<open>
  \<open>bytes.decode("utf-8", errors="ignore")\<close>: a well-formed sequence gives its code point;
  at an ill-formed one the decoder drops the bytes that cannot start or continue a sequence
  (one byte for a bad start byte, the bytes read so far for a bad continuation byte, the
  rest of the input for a sequence cut off by the end) and goes on.
\<close>

definition is_cont :: "nat \<Rightarrow> bool" where
  "is_cont b \<longleftrightarrow> 128 \<le> b \<and> b \<le> 191"

fun utf8_ignore :: "bytes \<Rightarrow> pystr" where
  "utf8_ignore [] = []"
| "utf8_ignore (b # bs) =
     (if b < 128 then b # utf8_ignore bs
      else if b < 194 then utf8_ignore bs
      else if b < 224 then
        (case bs of
           [] \<Rightarrow> []
         | b2 # r2 \<Rightarrow>
             if is_cont b2 then ((b - 192) * 64 + (b2 - 128)) # utf8_ignore r2
             else utf8_ignore bs)
      else if b < 240 then
        (case bs of
           [] \<Rightarrow> []
         | b2 # r2 \<Rightarrow>
             if \<not> is_cont b2 \<or> (b = 224 \<and> b2 < 160) \<or> (b = 237 \<and> 160 \<le> b2) then utf8_ignore bs
             else
               (case r2 of
                  [] \<Rightarrow> []
                | b3 # r3 \<Rightarrow>
                    if is_cont b3
                    then ((b - 224) * 4096 + (b2 - 128) * 64 + (b3 - 128)) # utf8_ignore r3
                    else utf8_ignore r2))
      else if b < 245 then
        (case bs of
           [] \<Rightarrow> []
         | b2 # r2 \<Rightarrow>
             if \<not> is_cont b2 \<or> (b = 240 \<and> b2 < 144) \<or> (b = 244 \<and> 144 \<le> b2) then utf8_ignore bs
             else
               (case r2 of
                  [] \<Rightarrow> []
                | b3 # r3 \<Rightarrow>
                    if \<not> is_cont b3 then utf8_ignore r2
                    else
                      (case r3 of
                         [] \<Rightarrow> []
                       | b4 # r4 \<Rightarrow>
                           if is_cont b4
                           then ((b - 240) * 262144 + (b2 - 128) * 4096 + (b3 - 128) * 64 + (b4 - 128))
                                  # utf8_ignore r4
                           else utf8_ignore r3)))
      else utf8_ignore bs)"

text \<open>
  A file opened in text mode with the default \<open>newline=None\<close> gives \<open>\\n\<close> for each of
  \<open>\\r\\n\<close>, \<open>\\r\<close> and \<open>\\n\<close>.
\<close>

fun universal_newlines :: "pystr \<Rightarrow> pystr" where
  "universal_newlines [] = []"
| "universal_newlines (c # cs) =
     (if c = 13 then
        (case cs of
           [] \<Rightarrow> [10]
         | d # ds \<Rightarrow> if d = 10 then 10 # universal_newlines ds else 10 # universal_newlines cs)
      else c # universal_newlines cs)"

text \<open>\<open>"\\n".join(full_text)\<close>\<close>

fun join_nl :: "pystr list \<Rightarrow> pystr" where
  "join_nl [] = []"
| "join_nl [p] = p"
| "join_nl (p # q # ps) = p @ [10] @ join_nl (q # ps)"

text \<open>\<open>filename.rsplit(".", 1)\<close>: cut at the last dot, if there is one.\<close>

definition rsplit_dot :: "pystr \<Rightarrow> pystr list" where
  "rsplit_dot s =
     (if 46 \<in> set s
      then [rev (drop 1 (dropWhile (\<lambda>c. c \<noteq> 46) (rev s))), rev (takeWhile (\<lambda>c. c \<noteq> 46) (rev s))]
      else [s])"

definition extract_text_from_docx :: "libraries \<Rightarrow> bytes \<Rightarrow> exn + pystr" where
  "extract_text_from_docx libs file =
     (case docx_paragraphs libs file of
        Inl e \<Rightarrow> Inl e
      | Inr full_text \<Rightarrow> Inr (join_nl full_text))"

definition extract_text_from_pdf :: "libraries \<Rightarrow> bytes \<Rightarrow> exn + pystr" where
  "extract_text_from_pdf libs file =
     (case pdf_text libs file of
        Inl e \<Rightarrow> Inr []
      | Inr None \<Rightarrow> Inr []
      | Inr (Some t) \<Rightarrow> Inr (if t \<noteq> [] then t else []))"

definition extract_text_from_txt :: "bytes \<Rightarrow> exn + pystr" where
  "extract_text_from_txt file = Inr (universal_newlines (utf8_ignore file))"

definition extract_text :: "libraries \<Rightarrow> unicode_lower \<Rightarrow> bytes \<Rightarrow> pystr \<Rightarrow> exn + pystr" where
  "extract_text libs ul file filename =
     (let parts = rsplit_dot filename in
      if length parts < 2 then Inl IndexError
      else
        (let ext = lower ul (parts ! 1) in
         if ext = str ''pdf'' then extract_text_from_pdf libs file
         else if ext = str ''docx'' \<or> ext = str ''doc'' then
           (if ext = str ''doc'' then extract_text_from_txt file
            else extract_text_from_docx libs file)
         else if ext = str ''txt'' then extract_text_from_txt file
         else Inr []))"

section \<open>Notions used in the statements\<close>

text \<open>
  The entries that the loop of the scorer records: for every entry of the job profile whose
  token has a positive count in the resume profile, the token with the smaller of the two counts.
\<close>

definition contribs :: "int pydict \<Rightarrow> int pydict \<Rightarrow> int pydict" where
  "contribs r js =
     map (\<lambda>(t, jc). (t, min (dict_get r t 0) jc)) (filter (\<lambda>(t, jc). dict_get r t 0 > 0) js)"

text \<open>The code points a token may contain: \<open>a..z\<close>, \<open>0..9\<close>, hyphen, plus and hash.\<close>

definition tok_char :: "nat \<Rightarrow> bool" where
  "tok_char c \<longleftrightarrow> (97 \<le> c \<and> c \<le> 122) \<or> (48 \<le> c \<and> c \<le> 57) \<or> c = 45 \<or> c = 43 \<or> c = 35"

text \<open>
  A case table for the closed examples: it leaves every non-ASCII code point as it is.
  The examples contain ASCII only, where \<open>lower\<close> never consults the table.
\<close>

definition ascii_lower :: unicode_lower where
  "ascii_lower before c after = [c]"

text \<open>The extension that \<open>extract_text\<close> dispatches on, for a file name with a dot.\<close>

definition file_ext :: "unicode_lower \<Rightarrow> pystr \<Rightarrow> pystr" where
  "file_ext ul filename = lower ul (rsplit_dot filename ! 1)"

text \<open>
  Libraries for the closed examples: they reject every file, as the real ones do on the
  files of the examples, which are neither a PDF nor a zip archive.
\<close>

definition rejecting :: libraries where
  "rejecting =
     \<lparr>pdf_text = (\<lambda>file. Inl (Raised ''PDFSyntaxError'')),
      docx_paragraphs = (\<lambda>file. Inl (Raised ''PackageNotFoundError''))\<rparr>"

section \<open>Dictionaries and counters\<close>

lemma dict_get_map_of: "dict_get m k d = (case map_of m k of None \<Rightarrow> d | Some v \<Rightarrow> v)"
  by (induction m) auto

lemma map_of_dict_set: "map_of (dict_set m k v) = (map_of m)(k \<mapsto> v)"
  by (induction m) auto

lemma keys_list_dict_set:
  "map fst (dict_set m k v) = (if k \<in> fst ` set m then map fst m else map fst m @ [k])"
  by (induction m) (force simp: image_iff)+

lemma keys_dict_set: "fst ` set (dict_set m k v) = insert k (fst ` set m)"
proof -
  have "set (map fst (dict_set m k v)) = insert k (set (map fst m))"
    unfolding keys_list_dict_set by auto
  then show ?thesis by simp
qed

lemma distinct_dict_set: "distinct (map fst m) \<Longrightarrow> distinct (map fst (dict_set m k v))"
  unfolding keys_list_dict_set by auto

lemma dict_set_fresh: "k \<notin> fst ` set m \<Longrightarrow> dict_set m k v = m @ [(k, v)]"
  by (induction m) auto

lemma set_dict_set: "kv \<in> set (dict_set m k v) \<Longrightarrow> kv = (k, v) \<or> kv \<in> set m"
  by (induction m) (auto split: if_splits)

lemma dict_get_nonneg: "\<forall>kv \<in> set m. 0 < snd kv \<Longrightarrow> (0::int) \<le> dict_get m k 0"
  by (induction m) auto

lemma count_elements_Cons:
  "count_elements m (t # ts) = count_elements (dict_set m t (dict_get m t 0 + 1)) ts"
  by (simp add: count_elements_def)

lemma count_elements_distinct:
  "distinct (map fst m) \<Longrightarrow> distinct (map fst (count_elements m ts))"
  by (induction ts arbitrary: m) (simp_all add: count_elements_def distinct_dict_set)

lemma count_elements_keys: "fst ` set (count_elements m ts) = fst ` set m \<union> set ts"
  by (induction ts arbitrary: m) (simp_all add: count_elements_def keys_dict_set)

lemma count_elements_pos:
  "\<forall>kv \<in> set m. 0 < snd kv \<Longrightarrow> \<forall>kv \<in> set (count_elements m ts). 0 < snd kv"
proof (induction ts arbitrary: m)
  case Nil
  then show ?case by (simp add: count_elements_def)
next
  case (Cons t ts)
  have "\<forall>kv \<in> set (dict_set m t (dict_get m t 0 + 1)). 0 < snd kv"
  proof
    fix kv assume "kv \<in> set (dict_set m t (dict_get m t 0 + 1))"
    then have "kv = (t, dict_get m t 0 + 1) \<or> kv \<in> set m"
      by (rule set_dict_set)
    then show "0 < snd kv"
      using Cons.prems dict_get_nonneg [OF Cons.prems, of t] by auto
  qed
  then show ?case using Cons.IH by (simp add: count_elements_Cons)
qed

lemma Counter_distinct: "distinct (map fst (Counter ts))"
  by (simp add: Counter_def count_elements_distinct)

lemma Counter_keys: "fst ` set (Counter ts) = set ts"
  by (simp add: Counter_def count_elements_keys)

lemma Counter_pos: "kv \<in> set (Counter ts) \<Longrightarrow> 0 < snd kv"
  using count_elements_pos [of "[]" ts] by (simp add: Counter_def)

lemma score_loop_eq:
  "distinct (map fst js) \<Longrightarrow> fst ` set m \<inter> fst ` set js = {} \<Longrightarrow>
   score_loop r js (ov, m) = (ov + sum_list (map snd (contribs r js)), m @ contribs r js)"
proof (induction js arbitrary: ov m)
  case Nil
  then show ?case by (simp add: contribs_def)
next
  case (Cons a js)
  obtain t jc where a: "a = (t, jc)" by (cases a)
  have d: "distinct (map fst js)" and tn: "t \<notin> fst ` set js" and tm: "t \<notin> fst ` set m"
    and mj: "fst ` set m \<inter> fst ` set js = {}"
    using Cons.prems a by auto
  show ?case
  proof (cases "dict_get r t 0 > 0")
    case True
    let ?c = "min (dict_get r t 0) jc"
    have fresh: "dict_set m t ?c = m @ [(t, ?c)]" using tm by (rule dict_set_fresh)
    have disj: "fst ` set (m @ [(t, ?c)]) \<inter> fst ` set js = {}" using mj tn by auto
    have "score_loop r (a # js) (ov, m) = score_loop r js (ov + ?c, m @ [(t, ?c)])"
      using True a fresh by (simp add: Let_def)
    also have "\<dots> = (ov + ?c + sum_list (map snd (contribs r js)), (m @ [(t, ?c)]) @ contribs r js)"
      using Cons.IH [OF d disj] .
    finally show ?thesis using True a by (simp add: contribs_def Let_def)
  next
    case False
    have "score_loop r (a # js) (ov, m) = score_loop r js (ov, m)"
      using False a by (simp add: Let_def)
    then show ?thesis using Cons.IH [OF d mj] False a by (simp add: contribs_def)
  qed
qed

lemma split_from_chars:
  "t \<in> set (split_from cur cs) \<Longrightarrow> c \<in> set t \<Longrightarrow> c \<in> set cur \<or> (c \<in> set cs \<and> \<not> is_space c)"
  by (induction cur cs rule: split_from.induct) (auto split: if_splits)

section \<open>Profiles and the loop of the scorer\<close>

lemma profile_distinct: "distinct (map fst (tokenize_and_weight ul sw text None))"
  by (simp add: tokenize_and_weight_def Counter_distinct)

lemma profile_pos: "kv \<in> set (tokenize_and_weight ul sw text None) \<Longrightarrow> 0 < snd kv"
  by (simp add: tokenize_and_weight_def Counter_pos)

lemma sum_counts_pos:
  "js \<noteq> [] \<Longrightarrow> \<forall>kv \<in> set js. (0::int) < snd kv \<Longrightarrow> 1 \<le> sum_list (map snd js)"
proof (induction js)
  case Nil
  then show ?case by simp
next
  case (Cons a js)
  have "0 \<le> sum_list (map snd js)" using Cons.prems(2) by (intro sum_list_nonneg) auto
  moreover have "1 \<le> snd a" using Cons.prems(2) by auto
  ultimately show ?case by simp
qed

lemma contribs_sum_bounds:
  "\<forall>kv \<in> set js. (0::int) < snd kv \<Longrightarrow>
   0 \<le> sum_list (map snd (contribs r js)) \<and> sum_list (map snd (contribs r js)) \<le> sum_list (map snd js)"
  by (induction js) (auto simp: contribs_def)

lemma map_of_contribs:
  "map_of (contribs r js) t =
     (case map_of js t of None \<Rightarrow> None
      | Some jc \<Rightarrow> if dict_get r t 0 > 0 then Some (min (dict_get r t 0) jc) else None)"
  by (induction js) (auto simp: contribs_def split: option.splits)

lemma keys_contribs:
  "map fst (contribs r js) = filter (\<lambda>t. 0 < dict_get r t 0) (map fst js)"
  by (induction js) (auto simp: contribs_def)

lemma contribs_distinct: "distinct (map fst js) \<Longrightarrow> distinct (map fst (contribs r js))"
  by (simp add: keys_contribs)

lemma contribs_full:
  "\<forall>kv \<in> set js. 0 < snd kv \<and> snd kv \<le> dict_get r (fst kv) 0 \<Longrightarrow> contribs r js = js"
  by (induction js) (auto simp: contribs_def)

lemma contribs_pos: "\<forall>kv \<in> set js. (0::int) < snd kv \<Longrightarrow> kv \<in> set (contribs r js) \<Longrightarrow> 0 < snd kv"
  by (induction js) (auto simp: contribs_def split: if_splits)

lemma score_loop_profile:
  "distinct (map fst js) \<Longrightarrow>
   score_loop r js (0, []) = (sum_list (map snd (contribs r js)), contribs r js)"
  using score_loop_eq [of js "[]" r 0] by simp

lemma score_unfold:
  assumes "tokenize_and_weight ul sw J None \<noteq> []"
  shows "score_resume_against_job ul sw R J =
    (of_int (sum_list (map snd (contribs (tokenize_and_weight ul sw R None) (tokenize_and_weight ul sw J None))))
       / of_int (sum_list (map snd (tokenize_and_weight ul sw J None))),
     contribs (tokenize_and_weight ul sw R None) (tokenize_and_weight ul sw J None))"
proof -
  let ?j = "tokenize_and_weight ul sw J None"
  have "1 \<le> sum_list (map snd ?j)"
    using assms profile_pos by (intro sum_counts_pos) auto
  then have nz: "sum_list (map snd ?j) \<noteq> 0" by simp
  show ?thesis
    using assms nz
    by (simp add: score_resume_against_job_def Let_def score_loop_profile [OF profile_distinct])
qed

lemma Counter_empty_iff: "Counter ts = [] \<longleftrightarrow> ts = []"
proof -
  have "fst ` set (Counter ts) = set ts" by (rule Counter_keys)
  then show ?thesis by (metis image_is_empty set_empty)
qed

lemma dict_get_pos_iff:
  "\<forall>kv \<in> set m. (0::int) < snd kv \<Longrightarrow> 0 < dict_get m k 0 \<longleftrightarrow> k \<in> fst ` set m"
  by (induction m) (auto simp: image_iff)

lemma contribs_empty_iff:
  "contribs r js = [] \<longleftrightarrow> (\<forall>kv \<in> set js. \<not> 0 < dict_get r (fst kv) 0)"
  by (induction js) (auto simp: contribs_def)

section \<open>Tokens and ranking\<close>

lemma is_space_32: "is_space 32"
  by (simp add: is_space_def)

lemma in_class_tok_char: "in_class c \<Longrightarrow> \<not> is_space c \<Longrightarrow> tok_char c"
  unfolding in_class_def tok_char_def by blast

lemma re_sub_chars:
  assumes "c \<in> set (re_sub s)" and "\<not> is_space c"
  shows "tok_char c"
proof -
  have "c \<in> (\<lambda>c. if in_class c then c else 32) ` set s"
    using assms(1) by (simp only: re_sub_def set_map)
  then obtain x where x: "c = (if in_class x then x else 32)"
    by (rule imageE)
  show ?thesis
  proof (cases "in_class x")
    case True
    then show ?thesis using x assms(2) in_class_tok_char by simp
  next
    case False
    then show ?thesis using x assms(2) is_space_32 by simp
  qed
qed

lemma split_re_sub_chars: "t \<in> set (split (re_sub text)) \<Longrightarrow> c \<in> set t \<Longrightarrow> tok_char c"
proof -
  assume a: "t \<in> set (split (re_sub text))" and b: "c \<in> set t"
  have "t \<in> set (split_from [] (re_sub text))" using a by (simp add: split_def)
  from split_from_chars [OF this b] have "c \<in> set (re_sub text) \<and> \<not> is_space c" by simp
  then show ?thesis using re_sub_chars by blast
qed

lemma lower_from_tok_chars: "\<forall>c \<in> set t. tok_char c \<Longrightarrow> lower_from ul before t = t"
proof (induction t arbitrary: before)
  case Nil
  then show ?case by simp
next
  case (Cons c t)
  have "tok_char c" using Cons.prems by simp
  then have "c < 128 \<and> \<not> (65 \<le> c \<and> c \<le> 90)" unfolding tok_char_def by arith
  then have "lower_cp ul before c t = [c]" by (simp add: lower_cp_def)
  then show ?case using Cons by simp
qed

lemma most_common_subset: "set (most_common n cnt) \<subseteq> set cnt"
  using set_take_subset [of "nat n" "sort_key (\<lambda>kv. - snd kv) cnt"] by (simp add: most_common_def)

lemma profile_subset:
  "set (tokenize_and_weight ul sw text top_n) \<subseteq> set (Counter (tokens_of ul sw text))"
proof (cases top_n)
  case None
  then show ?thesis by (simp add: tokenize_and_weight_def)
next
  case (Some n)
  then show ?thesis
    using most_common_subset [of n "Counter (tokens_of ul sw text)"]
    by (simp add: tokenize_and_weight_def Let_def)
qed

lemma take_drop_sorted_key:
  assumes "sorted (map f ys)" and "x \<in> set (take k ys)" and "y \<in> set (drop k ys)"
  shows "f x \<le> f y"
proof -
  have "sorted (map f (take k ys) @ map f (drop k ys))"
    using assms(1) by (simp flip: map_append)
  then show ?thesis using assms(2,3) by (auto simp: sorted_append)
qed

text \<open>Unfolding the definitions evaluates the tokenizer and the scorer on a literal.\<close>

lemmas tok_eval = tokenize_and_weight_def tokens_of_def split_def re_sub_def lower_def lower_cp_def
  in_class_def is_space_def Counter_def count_elements_def str_def

lemmas score_eval = score_resume_against_job_def tok_eval

section \<open>Properties of the scorer\<close>

text \<open>
  C1. When the job profile is not empty, \<open>score_resume_against_job\<close> returns
  \<open>(score, matched)\<close> where \<open>matched\<close> holds exactly the tokens of the job profile whose
  count in the resume profile is positive, each with the smaller of its two counts; its keys
  are distinct and its values sum to the \<open>overlap\<close> the loop computes; the sum of the job
  counts is at least 1; and the score is that overlap divided by that sum.
\<close>

theorem C1_score_structure:
  assumes "tokenize_and_weight ul sw J None \<noteq> []"
    and "score_resume_against_job ul sw R J = (score, matched)"
  shows "(\<forall>t. map_of matched t =
            (case map_of (tokenize_and_weight ul sw J None) t of
               None \<Rightarrow> None
             | Some jcount \<Rightarrow>
                 if dict_get (tokenize_and_weight ul sw R None) t 0 > 0
                 then Some (min (dict_get (tokenize_and_weight ul sw R None) t 0) jcount)
                 else None))
       \<and> distinct (map fst matched)
       \<and> sum_list (map snd matched) =
           fst (score_loop (tokenize_and_weight ul sw R None) (tokenize_and_weight ul sw J None) (0, []))
       \<and> 1 \<le> sum_list (map snd (tokenize_and_weight ul sw J None))
       \<and> score = of_int (sum_list (map snd matched))
                 / of_int (sum_list (map snd (tokenize_and_weight ul sw J None)))"
proof -
  let ?r = "tokenize_and_weight ul sw R None" and ?j = "tokenize_and_weight ul sw J None"
  have m: "matched = contribs ?r ?j"
    and s: "score = of_int (sum_list (map snd (contribs ?r ?j))) / of_int (sum_list (map snd ?j))"
    using score_unfold [OF assms(1), of R] assms(2) by simp_all
  have tot: "1 \<le> sum_list (map snd ?j)"
    using assms(1) profile_pos by (intro sum_counts_pos) auto
  have ov: "sum_list (map snd matched) = fst (score_loop ?r ?j (0, []))"
    by (simp add: m score_loop_profile [OF profile_distinct])
  show ?thesis
    using tot ov s by (simp add: m map_of_contribs contribs_distinct [OF profile_distinct])
qed

text \<open>
  C1, at a concrete pair of texts: the job profile is \<open>{sql: 2, python: 1}\<close>, the resume
  has \<open>python\<close> twice, and the result is \<open>1/3\<close> with \<open>{python: 1}\<close>.
\<close>

theorem C1_witness:
  "tokenize_and_weight ascii_lower {} (str ''sql python sql'') None \<noteq> []
   \<and> score_resume_against_job ascii_lower {} (str ''Python, Java; python!'') (str ''sql python sql'')
       = (1 / 3, [(str ''python'', 1)])
   \<and> 1 \<le> sum_list (map snd (tokenize_and_weight ascii_lower {} (str ''sql python sql'') None))"
proof -
  have h1: "tokenize_and_weight ascii_lower {} (str ''sql python sql'') None \<noteq> []"
    by (simp add: tok_eval)
  have h2: "score_resume_against_job ascii_lower {} (str ''Python, Java; python!'') (str ''sql python sql'')
       = (1 / 3, [(str ''python'', 1)])"
    by (simp add: score_eval)
  show ?thesis
    using h1 h2 C1_score_structure [OF h1 h2] by simp
qed

text \<open>
  C2. For every pair of texts the score lies between 0 and 1.
\<close>

theorem C2_score_range:
  "0 \<le> fst (score_resume_against_job ul sw R J) \<and> fst (score_resume_against_job ul sw R J) \<le> 1"
proof (cases "tokenize_and_weight ul sw J None = []")
  case True
  then show ?thesis by (simp add: score_resume_against_job_def)
next
  case False
  let ?r = "tokenize_and_weight ul sw R None" and ?j = "tokenize_and_weight ul sw J None"
  have pos: "\<forall>kv \<in> set ?j. 0 < snd kv" using profile_pos by blast
  have tot: "1 \<le> sum_list (map snd ?j)"
    using False pos by (intro sum_counts_pos) auto
  have b: "0 \<le> sum_list (map snd (contribs ?r ?j))"
    "sum_list (map snd (contribs ?r ?j)) \<le> sum_list (map snd ?j)"
    using contribs_sum_bounds [OF pos, of ?r] by simp_all
  have "(of_int (sum_list (map snd (contribs ?r ?j))) :: rat) \<le> of_int (sum_list (map snd ?j))"
    using b(2) by simp
  moreover have "(0::rat) < of_int (sum_list (map snd ?j))" using tot by simp
  moreover have "(0::rat) \<le> of_int (sum_list (map snd (contribs ?r ?j)))" using b(1) by simp
  ultimately show ?thesis
    by (simp add: score_unfold [OF False])
qed

text \<open>
  C2, at a concrete pair of texts.
\<close>

theorem C2_witness:
  "0 \<le> fst (score_resume_against_job ascii_lower {} (str ''Python, Java; python!'') (str ''sql python sql''))
   \<and> fst (score_resume_against_job ascii_lower {} (str ''Python, Java; python!'') (str ''sql python sql'')) \<le> 1"
  using C2_score_range [of ascii_lower "{}" "str ''Python, Java; python!''" "str ''sql python sql''"] by simp

text \<open>
  C3. When the job text yields no token after filtering, the result is \<open>(0, {})\<close>,
  whatever the resume text is.
\<close>

theorem C3_empty_job:
  assumes "tokens_of ul sw J = []"
  shows "score_resume_against_job ul sw R J = (0, [])"
proof -
  have "tokenize_and_weight ul sw J None = []"
    using assms by (simp add: tokenize_and_weight_def Counter_empty_iff)
  then show ?thesis by (simp add: score_resume_against_job_def)
qed

text \<open>
  C3, at the empty job text and at a job text of one-letter words and punctuation.
\<close>

theorem C3_witness:
  "tokens_of ascii_lower {} (str '''') = []
   \<and> score_resume_against_job ascii_lower {} (str ''python'') (str '''') = (0, [])
   \<and> tokens_of ascii_lower {} (str ''a, b & c ... !'') = []
   \<and> score_resume_against_job ascii_lower {} (str ''python'') (str ''a, b & c ... !'') = (0, [])"
proof -
  have h1: "tokens_of ascii_lower {} (str '''') = []" by (simp add: tok_eval)
  have h2: "tokens_of ascii_lower {} (str ''a, b & c ... !'') = []" by (simp add: tok_eval)
  show ?thesis
    using h1 h2 C3_empty_job [OF h1, of "str ''python''"] C3_empty_job [OF h2, of "str ''python''"]
    by simp
qed

text \<open>
  C7. When the job profile is not empty and every one of its tokens has at least the same
  count in the resume profile, the score is 1.
\<close>

theorem C7_full_coverage:
  assumes "tokenize_and_weight ul sw J None \<noteq> []"
    and "\<forall>(t, jcount) \<in> set (tokenize_and_weight ul sw J None).
           jcount \<le> dict_get (tokenize_and_weight ul sw R None) t 0"
  shows "fst (score_resume_against_job ul sw R J) = 1"
proof -
  let ?r = "tokenize_and_weight ul sw R None" and ?j = "tokenize_and_weight ul sw J None"
  have "\<forall>kv \<in> set ?j. 0 < snd kv \<and> snd kv \<le> dict_get ?r (fst kv) 0"
    using assms(2) profile_pos by fastforce
  then have c: "contribs ?r ?j = ?j" by (rule contribs_full)
  have "1 \<le> sum_list (map snd ?j)"
    using assms(1) profile_pos by (intro sum_counts_pos) auto
  then show ?thesis by (simp add: score_unfold [OF assms(1)] c)
qed

text \<open>
  C7, at a job text whose three tokens the resume repeats.
\<close>

theorem C7_witness:
  "tokenize_and_weight ascii_lower {} (str ''c++ node-js c++'') None \<noteq> []
   \<and> fst (score_resume_against_job ascii_lower {} (str ''C++ and C++, c++; Node-JS (c#)'') (str ''c++ node-js c++'')) = 1"
proof -
  have h1: "tokenize_and_weight ascii_lower {} (str ''c++ node-js c++'') None \<noteq> []"
    by (simp add: tok_eval)
  have h2: "\<forall>(t, jcount) \<in> set (tokenize_and_weight ascii_lower {} (str ''c++ node-js c++'') None).
      jcount \<le> dict_get (tokenize_and_weight ascii_lower {} (str ''C++ and C++, c++; Node-JS (c#)'') None) t 0"
    by (simp add: tok_eval)
  show ?thesis using h1 C7_full_coverage [OF h1 h2] by simp
qed

text \<open>
  C9. The score is not symmetric: when \<open>python\<close>, \<open>java\<close> and \<open>sql\<close> are not stopwords,
  there are a resume text and a shorter job text whose score changes when the two are swapped
  (\<open>1\<close> one way, \<open>1/4\<close> the other), because only the job counts are the divisor.
\<close>

theorem C9_asymmetric:
  assumes "str ''python'' \<notin> sw" and "str ''java'' \<notin> sw" and "str ''sql'' \<notin> sw"
  shows "\<exists>R J. length J < length R
     \<and> fst (score_resume_against_job ul sw R J) \<noteq> fst (score_resume_against_job ul sw J R)"
proof -
  let ?R = "str ''python java sql python''" and ?J = "str ''python''"
  have a: "fst (score_resume_against_job ul sw ?R ?J) = 1"
    using assms by (simp add: score_eval)
  have b: "fst (score_resume_against_job ul sw ?J ?R) = 1 / 4"
    using assms by (simp add: score_eval)
  have "length ?J < length ?R" by (simp add: str_def)
  then show ?thesis using a b by (intro exI [of _ ?R] exI [of _ ?J]) simp
qed

text \<open>
  C9, with the empty stopword set.
\<close>

theorem C9_witness:
  "str ''python'' \<notin> ({} :: pystr set) \<and> (\<exists>R J. length J < length R
     \<and> fst (score_resume_against_job ascii_lower {} R J) \<noteq> fst (score_resume_against_job ascii_lower {} J R))"
  using C9_asymmetric [of "{}" ascii_lower] by simp

text \<open>
  C10. The score is 0 exactly when \<open>matched\<close> is empty, and it is positive exactly when
  some token of the job profile is also a token of the resume profile.
\<close>

theorem C10_zero_iff_no_match:
  "(fst (score_resume_against_job ul sw R J) = 0 \<longleftrightarrow> snd (score_resume_against_job ul sw R J) = [])
   \<and> (0 < fst (score_resume_against_job ul sw R J) \<longleftrightarrow>
        (\<exists>t. t \<in> fst ` set (tokenize_and_weight ul sw J None)
           \<and> t \<in> fst ` set (tokenize_and_weight ul sw R None)))"
proof (cases "tokenize_and_weight ul sw J None = []")
  case True
  then show ?thesis by (simp add: score_resume_against_job_def)
next
  case False
  let ?r = "tokenize_and_weight ul sw R None" and ?j = "tokenize_and_weight ul sw J None"
  let ?c = "contribs ?r ?j"
  have pos: "\<forall>kv \<in> set ?j. 0 < snd kv" using profile_pos by blast
  have rpos: "\<forall>kv \<in> set ?r. 0 < snd kv" using profile_pos by blast
  have tot: "1 \<le> sum_list (map snd ?j)"
    using False pos by (intro sum_counts_pos) auto
  have cpos: "\<forall>kv \<in> set ?c. 0 < snd kv" using contribs_pos [OF pos] by blast
  have nn: "0 \<le> sum_list (map snd ?c)" using contribs_sum_bounds [OF pos, of ?r] by simp
  have z: "sum_list (map snd ?c) = 0 \<longleftrightarrow> ?c = []"
  proof
    assume a: "sum_list (map snd ?c) = 0"
    show "?c = []"
    proof (rule ccontr)
      assume "?c \<noteq> []"
      then have "1 \<le> sum_list (map snd ?c)" using cpos by (intro sum_counts_pos) auto
      then show False using a by simp
    qed
  qed simp
  have e: "?c \<noteq> [] \<longleftrightarrow> (\<exists>t. t \<in> fst ` set ?j \<and> t \<in> fst ` set ?r)"
    unfolding contribs_empty_iff using dict_get_pos_iff [OF rpos] by auto
  have f: "fst (score_resume_against_job ul sw R J) = of_int (sum_list (map snd ?c)) / of_int (sum_list (map snd ?j))"
    and s: "snd (score_resume_against_job ul sw R J) = ?c"
    by (simp_all add: score_unfold [OF False])
  have t: "(0::rat) < of_int (sum_list (map snd ?j))" using tot by simp
  have f0: "fst (score_resume_against_job ul sw R J) = 0 \<longleftrightarrow> ?c = []"
    using t z by (simp add: f)
  have fp: "0 < fst (score_resume_against_job ul sw R J) \<longleftrightarrow> ?c \<noteq> []"
    using t z nn by (simp add: f zero_less_divide_iff) linarith
  show ?thesis using f0 fp e s by simp
qed

text \<open>
  C10, at a resume and a job that share no token.
\<close>

theorem C10_witness:
  "(fst (score_resume_against_job ascii_lower {} (str ''java'') (str ''python'')) = 0
      \<longleftrightarrow> snd (score_resume_against_job ascii_lower {} (str ''java'') (str ''python'')) = [])
   \<and> snd (score_resume_against_job ascii_lower {} (str ''java'') (str ''python'')) = []"
proof -
  have "snd (score_resume_against_job ascii_lower {} (str ''java'') (str ''python'')) = []"
    by (simp add: score_eval)
  then show ?thesis
    using C10_zero_iff_no_match [of ascii_lower "{}" "str ''java''" "str ''python''"] by simp
qed

text \<open>
  C4, as the example is written: with the empty stopword set the words \<open>needed\<close> and
  \<open>required\<close> stay in the job profile, so the profile is not
  \<open>{python: 2, developer: 1, experience: 1}\<close>, the sum of its counts is not 4 and the score
  is not \<open>1/2\<close>.
\<close>

theorem C4_example_empty_stopwords_counterexample:
  "tokenize_and_weight ascii_lower {} (str ''Python developer needed. Python experience required.'') None
     \<noteq> [(str ''python'', 2), (str ''developer'', 1), (str ''experience'', 1)]
   \<and> sum_list (map snd (tokenize_and_weight ascii_lower {}
         (str ''Python developer needed. Python experience required.'') None)) \<noteq> 4
   \<and> fst (score_resume_against_job ascii_lower {} (str ''Experienced Python engineer, 5 years Python.'')
         (str ''Python developer needed. Python experience required.'')) \<noteq> 1 / 2"
  by (simp add: score_eval)

text \<open>
  C4, amended. With the empty stopword set the job profile of the example is
  \<open>{python: 2, developer: 1, needed: 1, experience: 1, required: 1}\<close>, the resume profile is
  \<open>{experienced: 1, python: 2, engineer: 1, years: 1}\<close>, and the result is \<open>2/6 = 1/3\<close> with
  \<open>{python: 2}\<close>. The values of the example (job profile
  \<open>{python: 2, developer: 1, experience: 1}\<close>, score \<open>2/4 = 1/2\<close>, matched \<open>{python: 2}\<close>)
  are those for the stopword set \<open>{needed, required}\<close>.
\<close>

theorem C4_example:
  "tokenize_and_weight ul {} (str ''Python developer needed. Python experience required.'') None
     = [(str ''python'', 2), (str ''developer'', 1), (str ''needed'', 1), (str ''experience'', 1),
        (str ''required'', 1)]
   \<and> tokenize_and_weight ul {} (str ''Experienced Python engineer, 5 years Python.'') None
     = [(str ''experienced'', 1), (str ''python'', 2), (str ''engineer'', 1), (str ''years'', 1)]
   \<and> score_resume_against_job ul {} (str ''Experienced Python engineer, 5 years Python.'')
         (str ''Python developer needed. Python experience required.'') = (1 / 3, [(str ''python'', 2)])
   \<and> tokenize_and_weight ul {str ''needed'', str ''required''}
         (str ''Python developer needed. Python experience required.'') None
     = [(str ''python'', 2), (str ''developer'', 1), (str ''experience'', 1)]
   \<and> tokenize_and_weight ul {str ''needed'', str ''required''}
         (str ''Experienced Python engineer, 5 years Python.'') None
     = [(str ''experienced'', 1), (str ''python'', 2), (str ''engineer'', 1), (str ''years'', 1)]
   \<and> score_resume_against_job ul {str ''needed'', str ''required''}
         (str ''Experienced Python engineer, 5 years Python.'')
         (str ''Python developer needed. Python experience required.'') = (1 / 2, [(str ''python'', 2)])"
  by (simp add: score_eval)


section \<open>Properties of the tokenizer\<close>

text \<open>
  C6. Whatever the text, the stopword set and \<open>top_n\<close> are, every key of the profile is
  not empty, is longer than one code point, consists of \<open>a..z\<close>, \<open>0..9\<close>, hyphen, plus and
  hash only, is its own lower case, and is not a stopword; and every count is positive.
\<close>

theorem C6_profile_keys:
  "\<forall>(t, c) \<in> set (tokenize_and_weight ul sw text top_n).
     t \<noteq> [] \<and> 1 < length t \<and> (\<forall>ch \<in> set t. tok_char ch) \<and> lower ul t = t \<and> t \<notin> sw \<and> 0 < c"
proof (clarify, intro conjI)
  fix t c
  assume "(t, c) \<in> set (tokenize_and_weight ul sw text top_n)"
  then have mem: "(t, c) \<in> set (Counter (tokens_of ul sw text))"
    using profile_subset by blast
  then have "t \<in> fst ` set (Counter (tokens_of ul sw text))" by force
  then have tok: "t \<in> set (tokens_of ul sw text)" by (simp only: Counter_keys)
  then show "t \<noteq> []" and "1 < length t" and "t \<notin> sw"
    by (simp_all add: tokens_of_def)
  have "t \<in> set (split (re_sub (lower ul text)))" using tok by (simp add: tokens_of_def)
  then show chars: "\<forall>ch \<in> set t. tok_char ch" using split_re_sub_chars by blast
  then show "lower ul t = t" by (simp add: lower_def lower_from_tok_chars)
  show "0 < c" using Counter_pos [OF mem] by simp
qed

text \<open>
  C6, at a text with capitals, punctuation, one-letter words and a stopword.
\<close>

theorem C6_witness:
  "tokenize_and_weight ascii_lower {str ''and''} (str ''C++ & C#, Node-JS and R; c++ a 7'') (Some 2)
     = [(str ''c++'', 2), (str ''c#'', 1)]
   \<and> 1 < length (str ''c#'') \<and> tok_char 35 \<and> lower ascii_lower (str ''c#'') = str ''c#''
   \<and> str ''c#'' \<notin> {str ''and''}"
proof -
  have h: "tokenize_and_weight ascii_lower {str ''and''} (str ''C++ & C#, Node-JS and R; c++ a 7'') (Some 2)
     = [(str ''c++'', 2), (str ''c#'', 1)]"
    by (simp add: tok_eval most_common_def)
  show ?thesis
    using h C6_profile_keys [of ascii_lower "{str ''and''}" "str ''C++ & C#, Node-JS and R; c++ a 7''" "Some 2"]
    by (simp add: str_def)
qed

text \<open>
  C8, as it is written: \<open>top_n = 0\<close> is a supplied argument, and the profile that comes
  back is the full one, with three entries and not at most zero.
\<close>

theorem C8_top_n_zero_counterexample:
  "tokenize_and_weight ascii_lower {} (str ''java python sql python sql'') (Some 0)
     = [(str ''java'', 1), (str ''python'', 2), (str ''sql'', 2)]
   \<and> \<not> length (tokenize_and_weight ascii_lower {} (str ''java python sql python sql'') (Some 0)) \<le> 0"
  by (simp add: tok_eval)

text \<open>
  C8, amended. The test \<open>if top_n:\<close> takes a \<open>top_n\<close> of 0 as not supplied: the full
  profile is returned. For any other \<open>top_n\<close> the result is the first \<open>max(top_n, 0)\<close>
  entries of \<open>ranked\<close>, the entries of the full profile rearranged by descending count
  with entries of equal count in their first-encountered order. So it has at most
  \<open>max(top_n, 0)\<close> entries, it is empty for a negative \<open>top_n\<close>, and no entry left out has
  a larger count than an entry kept.
\<close>

theorem C8_top_n:
  "tokenize_and_weight ul sw text (Some 0) = tokenize_and_weight ul sw text None
   \<and> (n \<noteq> 0 \<longrightarrow>
       (\<exists>ranked.
          set ranked = set (tokenize_and_weight ul sw text None)
        \<and> distinct (map fst ranked)
        \<and> length ranked = length (tokenize_and_weight ul sw text None)
        \<and> sorted (map (\<lambda>kv. - snd kv) ranked)
        \<and> (\<forall>c. filter (\<lambda>kv. snd kv = c) ranked
               = filter (\<lambda>kv. snd kv = c) (tokenize_and_weight ul sw text None))
        \<and> tokenize_and_weight ul sw text (Some n) = take (nat n) ranked)
     \<and> length (tokenize_and_weight ul sw text (Some n)) \<le> nat n
     \<and> (\<forall>kv \<in> set (tokenize_and_weight ul sw text (Some n)).
          \<forall>kv' \<in> set (tokenize_and_weight ul sw text None) - set (tokenize_and_weight ul sw text (Some n)).
             snd kv' \<le> snd kv))"
proof (intro conjI impI)
  let ?full = "tokenize_and_weight ul sw text None"
  let ?f = "\<lambda>kv :: pystr \<times> int. - snd kv"
  let ?ys = "sort_key ?f ?full"
  show "tokenize_and_weight ul sw text (Some 0) = ?full"
    by (simp add: tokenize_and_weight_def)
  assume n: "n \<noteq> 0"
  have res: "tokenize_and_weight ul sw text (Some n) = take (nat n) ?ys"
    using n by (simp add: tokenize_and_weight_def most_common_def)
  have st: "filter (\<lambda>kv. snd kv = c) ?ys = filter (\<lambda>kv. snd kv = c) ?full" for c
    using sort_key_stable [of ?f "- c" ?full] by simp
  have dk: "distinct (map fst ?ys)"
  proof -
    have "distinct (map fst ?full)" by (rule profile_distinct)
    then have "distinct ?full" and "inj_on fst (set ?full)"
      by (simp_all add: distinct_map)
    then show ?thesis by (simp add: distinct_map)
  qed
  show "\<exists>ranked. set ranked = set ?full \<and> distinct (map fst ranked)
        \<and> length ranked = length ?full \<and> sorted (map ?f ranked)
        \<and> (\<forall>c. filter (\<lambda>kv. snd kv = c) ranked = filter (\<lambda>kv. snd kv = c) ?full)
        \<and> tokenize_and_weight ul sw text (Some n) = take (nat n) ranked"
    using dk st res by (intro exI [of _ ?ys]) (simp add: sorted_sort_key)
  show "length (tokenize_and_weight ul sw text (Some n)) \<le> nat n"
    by (simp add: res)
  show "\<forall>kv \<in> set (tokenize_and_weight ul sw text (Some n)).
          \<forall>kv' \<in> set ?full - set (tokenize_and_weight ul sw text (Some n)). snd kv' \<le> snd kv"
  proof (intro ballI)
    fix kv kv'
    assume a: "kv \<in> set (tokenize_and_weight ul sw text (Some n))"
      and b: "kv' \<in> set ?full - set (tokenize_and_weight ul sw text (Some n))"
    have "set ?full = set (take (nat n) ?ys) \<union> set (drop (nat n) ?ys)"
      by (simp flip: set_append)
    then have "kv' \<in> set (drop (nat n) ?ys)" using b res by auto
    moreover have "kv \<in> set (take (nat n) ?ys)" using a res by simp
    moreover have "sorted (map ?f ?ys)" by (rule sorted_sort_key)
    ultimately have "?f kv \<le> ?f kv'" by (intro take_drop_sorted_key [of ?f ?ys kv "nat n" kv'])
    then show "snd kv' \<le> snd kv" by simp
  qed
qed

text \<open>
  C8 amended, at a text with a tie: \<open>python\<close> and \<open>sql\<close> both occur twice, \<open>python\<close> first.
\<close>

theorem C8_witness:
  "(2::int) \<noteq> 0
   \<and> tokenize_and_weight ascii_lower {} (str ''java python sql python sql'') (Some 2)
       = [(str ''python'', 2), (str ''sql'', 2)]
   \<and> length (tokenize_and_weight ascii_lower {} (str ''java python sql python sql'') (Some 2)) \<le> nat 2
   \<and> tokenize_and_weight ascii_lower {} (str ''java python sql python sql'') (Some 1)
       = [(str ''python'', 2)]
   \<and> tokenize_and_weight ascii_lower {} (str ''java python sql python sql'') (Some (- 1)) = []"
proof -
  have h: "tokenize_and_weight ascii_lower {} (str ''java python sql python sql'') (Some 2)
       = [(str ''python'', 2), (str ''sql'', 2)]"
    "tokenize_and_weight ascii_lower {} (str ''java python sql python sql'') (Some 1)
       = [(str ''python'', 2)]"
    "tokenize_and_weight ascii_lower {} (str ''java python sql python sql'') (Some (- 1)) = []"
    by (simp_all add: tok_eval most_common_def)
  show ?thesis
    using h C8_top_n [of ascii_lower "{}" "str ''java python sql python sql''" 2] by simp
qed


section \<open>Properties of the extractor\<close>

lemma rsplit_dot_length: "46 \<in> set filename \<Longrightarrow> length (rsplit_dot filename) = 2"
  by (simp add: rsplit_dot_def)

lemma extract_text_dispatch:
  assumes "46 \<in> set filename"
  shows "extract_text libs ul file filename =
     (if file_ext ul filename = str ''pdf'' then extract_text_from_pdf libs file
      else if file_ext ul filename = str ''doc'' then extract_text_from_txt file
      else if file_ext ul filename = str ''docx'' then extract_text_from_docx libs file
      else if file_ext ul filename = str ''txt'' then extract_text_from_txt file
      else Inr [])"
  using rsplit_dot_length [OF assms]
  by (simp add: extract_text_def file_ext_def Let_def)

lemma extract_text_from_pdf_total: "\<exists>s. extract_text_from_pdf libs file = Inr s"
  by (simp add: extract_text_from_pdf_def split: sum.splits option.splits)

lemmas extract_eval = extract_text_def extract_text_from_txt_def extract_text_from_pdf_def
  extract_text_from_docx_def rejecting_def rsplit_dot_def lower_def lower_cp_def str_def is_cont_def

text \<open>
  C5, as it is written: a \<open>txt\<close> file with the byte \<open>0xFF\<close> between \<open>a\<close> and \<open>b\<close> is not
  valid UTF-8, and the text extracted is \<open>ab\<close>, not the empty string.
\<close>

theorem C5_non_utf8_kept_counterexample:
  "extract_text rejecting ascii_lower [97, 255, 98] (str ''cv.txt'') = Inr (str ''ab'')
   \<and> extract_text rejecting ascii_lower [97, 255, 98] (str ''cv.txt'') \<noteq> Inr []"
  by (simp add: extract_eval)

text \<open>
  C5, amended. For a file name with a dot: under every extension but \<open>docx\<close> extraction
  returns a text and raises nothing; under \<open>pdf\<close> a failure of the parser gives the empty
  text; under \<open>doc\<close> and \<open>txt\<close> the bytes are decoded as UTF-8 with the invalid bytes left out
  and the rest kept; under \<open>docx\<close>, when the parser accepts the file, the result is the
  paragraph texts joined by newlines; any other extension gives the empty text.
\<close>

theorem C5_extract_best_effort:
  assumes "46 \<in> set filename"
  shows "(file_ext ul filename \<noteq> str ''docx'' \<longrightarrow> (\<exists>s. extract_text libs ul file filename = Inr s))
    \<and> (file_ext ul filename = str ''pdf'' \<longrightarrow>
         (\<forall>e. pdf_text libs file = Inl e \<longrightarrow> extract_text libs ul file filename = Inr []))
    \<and> (file_ext ul filename = str ''doc'' \<or> file_ext ul filename = str ''txt'' \<longrightarrow>
         extract_text libs ul file filename = Inr (universal_newlines (utf8_ignore file)))
    \<and> (file_ext ul filename = str ''docx'' \<longrightarrow>
         (\<forall>ps. docx_paragraphs libs file = Inr ps \<longrightarrow>
            extract_text libs ul file filename = Inr (join_nl ps)))
    \<and> (file_ext ul filename \<notin> {str ''pdf'', str ''docx'', str ''doc'', str ''txt''} \<longrightarrow>
         extract_text libs ul file filename = Inr [])"
proof -
  note d = extract_text_dispatch [OF assms, of libs ul "file"]
  have ne: "str ''pdf'' \<noteq> str ''doc''" "str ''pdf'' \<noteq> str ''txt''" "str ''pdf'' \<noteq> str ''docx''"
    "str ''doc'' \<noteq> str ''txt''" "str ''doc'' \<noteq> str ''docx''" "str ''txt'' \<noteq> str ''docx''"
    by (simp_all add: str_def)
  have 1: "file_ext ul filename \<noteq> str ''docx'' \<longrightarrow> (\<exists>s. extract_text libs ul file filename = Inr s)"
    using extract_text_from_pdf_total [of libs "file"]
    by (simp add: d extract_text_from_txt_def)
  have 2: "file_ext ul filename = str ''pdf'' \<longrightarrow>
         (\<forall>e. pdf_text libs file = Inl e \<longrightarrow> extract_text libs ul file filename = Inr [])"
    by (simp add: d extract_text_from_pdf_def)
  have 3: "file_ext ul filename = str ''doc'' \<or> file_ext ul filename = str ''txt'' \<longrightarrow>
         extract_text libs ul file filename = Inr (universal_newlines (utf8_ignore file))"
    using ne by (auto simp: d extract_text_from_txt_def)
  have 4: "file_ext ul filename = str ''docx'' \<longrightarrow>
         (\<forall>ps. docx_paragraphs libs file = Inr ps \<longrightarrow>
            extract_text libs ul file filename = Inr (join_nl ps))"
    using ne by (auto simp: d extract_text_from_docx_def)
  have 5: "file_ext ul filename \<notin> {str ''pdf'', str ''docx'', str ''doc'', str ''txt''} \<longrightarrow>
         extract_text libs ul file filename = Inr []"
    by (simp add: d)
  show ?thesis using 1 2 3 4 5 by blast
qed

text \<open>
  C5 amended, at a file named \<open>cv.PDF\<close> that the PDF parser rejects.
\<close>

theorem C5_witness:
  "46 \<in> set (str ''cv.PDF'')
   \<and> file_ext ascii_lower (str ''cv.PDF'') = str ''pdf''
   \<and> pdf_text rejecting [37, 80, 68, 70, 255] = Inl (Raised ''PDFSyntaxError'')
   \<and> extract_text rejecting ascii_lower [37, 80, 68, 70, 255] (str ''cv.PDF'') = Inr []"
proof -
  have h: "46 \<in> set (str ''cv.PDF'')" by (simp add: str_def)
  have e: "file_ext ascii_lower (str ''cv.PDF'') = str ''pdf''"
    by (simp add: file_ext_def extract_eval)
  have p: "pdf_text rejecting [37, 80, 68, 70, 255] = Inl (Raised ''PDFSyntaxError'')"
    by (simp add: rejecting_def)
  show ?thesis
    using h e p C5_extract_best_effort [OF h, of ascii_lower rejecting "[37, 80, 68, 70, 255]"]
    by simp
qed

text \<open>
  What the amended statement leaves open: \<open>extract_text_from_docx\<close> has no handler, so
  an exception of the \<open>docx\<close> parser leaves \<open>extract_text\<close>; and a file name without a dot
  raises \<open>IndexError\<close> (the upload route checks for the dot first).
\<close>

lemma docx_failure_propagates:
  assumes "46 \<in> set filename" and "file_ext ul filename = str ''docx''"
    and "docx_paragraphs libs file = Inl e"
  shows "extract_text libs ul file filename = Inl e"
proof -
  have "str ''docx'' \<noteq> str ''pdf''" "str ''docx'' \<noteq> str ''doc''" by (simp_all add: str_def)
  then show ?thesis
    using assms(2,3) by (simp add: extract_text_dispatch [OF assms(1)] extract_text_from_docx_def)
qed

lemma docx_failure_example:
  "extract_text rejecting ascii_lower [] (str ''cv.docx'') = Inl (Raised ''PackageNotFoundError'')"
  by (simp add: extract_eval)

lemma no_dot_index_error: "46 \<notin> set filename \<Longrightarrow> extract_text libs ul file filename = Inl IndexError"
  by (simp add: extract_text_def rsplit_dot_def)


end
